theory Spec2Isabelle
  imports Main "HOL-Library.Multiset"
begin

section \<open>Data model of \<^verbatim>\<open>src/components/Canvas.tsx\<close>\<close>

text \<open>
  The three interfaces of the component (lines 6-24). The field types are type
  parameters: \<open>'s\<close> stands for the string-valued fields, \<open>'n\<close> for the number-valued
  ones and \<open>'t\<close> for the creation timestamp. The code only stores, copies and compares
  these values, so nothing depends on what a number is. Read at \<open>'s = string\<close> the
  records are the TypeScript declarations; read at an option type (\<open>None\<close> for
  \<^verbatim>\<open>undefined\<close>) they are the objects the unchecked cast
  \<^verbatim>\<open>payload.new as SupabaseStroke\<close> lets through at run time.
  Field names that clash between records carry a prefix.
\<close>

record 'n Point =
  pt_x :: 'n
  pt_y :: 'n

record ('s, 'n) Stroke =
  stroke_id :: 's
  color :: 's
  thickness :: 'n
  points :: "'n list"

record ('s, 'n, 't) SupabaseStroke =
  row_id :: 's
  row_color :: 's
  row_thickness :: 'n
  row_points :: "'n Point list"
  created_at :: 't

text \<open>
  The object literal handed to \<^verbatim>\<open>upsert\<close> (lines 95-97 and 186-193). Its points
  are built by indexing the flat array, and a JavaScript read past the end of an array
  yields \<^verbatim>\<open>undefined\<close>, so each coordinate is an option.
\<close>

record ('s, 'n) UpsertRow =
  up_id :: 's
  up_color :: 's
  up_thickness :: 'n
  up_points :: "'n option Point list"

text \<open>The calls the component issues to the store, and what an awaited call resolves to.\<close>

datatype ('s, 'n) request =
  Upsert "('s, 'n) UpsertRow list"
| DeleteNeqId string

datatype response = TransportOk | TransportError

text \<open>
  The component's state (lines 27-32). Strokes are JavaScript objects:
  \<^verbatim>\<open>lastLineRef.current\<close> and an element of \<^verbatim>\<open>lines\<close> can be the same
  object, and \<^verbatim>\<open>handlePointerMove\<close> assigns to a field of it. So the objects
  live in an explicit store \<open>heap\<close> (the address of an object is its index; allocation
  appends), and \<open>lines\<close> and \<open>lastLineRef\<close> hold addresses. The states
  \<^verbatim>\<open>color\<close> and \<^verbatim>\<open>thickness\<close> are \<open>sel_color\<close> and \<open>sel_thickness\<close>.
\<close>

record ('s, 'n) Session =
  heap :: "('s, 'n) Stroke list"
  lines :: "nat list"
  isDrawing :: bool
  sel_color :: 's
  sel_thickness :: 'n
  lastLineRef :: "nat option"

definition initial :: "(string, 'n::numeral) Session" where
  "initial = \<lparr>heap = [], lines = [], isDrawing = False,
              sel_color = ''#ff0000'', sel_thickness = 4, lastLineRef = None\<rparr>"

text \<open>What the \<^verbatim>\<open>Layer\<close> renders: the objects of \<^verbatim>\<open>lines\<close>, in order.\<close>

definition snapshot :: "('s, 'n) Session \<Rightarrow> ('s, 'n) Stroke list" where
  "snapshot s = map (\<lambda>a. heap s ! a) (lines s)"

section \<open>Loading and the change feed\<close>

text \<open>\<^verbatim>\<open>s.points.flatMap(p => [p.x, p.y])\<close> (lines 47 and 65).\<close>

definition flatPoints :: "'n Point list \<Rightarrow> 'n list" where
  "flatPoints ps = concat (map (\<lambda>p. [pt_x p, pt_y p]) ps)"

text \<open>The object literal of lines 43-48 and 61-66.\<close>

definition formatStroke :: "('s, 'n, 't) SupabaseStroke \<Rightarrow> ('s, 'n) Stroke" where
  "formatStroke r = \<lparr>stroke_id = row_id r, color = row_color r,
                     thickness = row_thickness r, points = flatPoints (row_points r)\<rparr>"

text \<open>
  \<^verbatim>\<open>fetchStrokes\<close> (lines 36-51), from the point where the query has resolved:
  \<open>data\<close> is \<open>None\<close> for \<^verbatim>\<open>null\<close>. \<^verbatim>\<open>data.map\<close> creates one new object per
  row and \<^verbatim>\<open>setLines(formatted)\<close> replaces the collection.
\<close>

definition fetchStrokes ::
  "('s, 'n, 't) SupabaseStroke list option \<Rightarrow> ('s, 'n) Session \<Rightarrow> ('s, 'n) Session" where
  "fetchStrokes data s =
     (case data of
        None \<Rightarrow> s
      | Some rows \<Rightarrow>
          s\<lparr>heap := heap s @ map formatStroke rows,
            lines := [length (heap s) ..< length (heap s) + length rows]\<rparr>)"

text \<open>
  The feed callback (lines 59-72): the stroke object is created first, then
  \<^verbatim>\<open>setLines\<close> keeps \<^verbatim>\<open>prev\<close> when some element has the stroke's id and
  appends the new object otherwise.
\<close>

definition onInsert ::
  "('s, 'n, 't) SupabaseStroke \<Rightarrow> ('s, 'n) Session \<Rightarrow> ('s, 'n) Session" where
  "onInsert r s =
     (let a = length (heap s);
          h = heap s @ [formatStroke r]
      in if list_ex (\<lambda>l. stroke_id (h ! l) = stroke_id (h ! a)) (lines s)
         then s\<lparr>heap := h\<rparr>
         else s\<lparr>heap := h, lines := lines s @ [a]\<rparr>)"

section \<open>Rebuilding the point records before an upsert\<close>

text \<open>A JavaScript array read: \<^verbatim>\<open>undefined\<close> past the end.\<close>

definition js_index :: "'a list \<Rightarrow> nat \<Rightarrow> 'a option" where
  "js_index xs i = (if i < length xs then Some (xs ! i) else None)"

text \<open>
  The loop of lines 88-91 and 181-184:
  \<^verbatim>\<open>for (let i = 0; i < line.points.length; i += 2) pointsArray.push({x: .., y: ..})\<close>.
\<close>

function pointsLoop ::
  "'n list \<Rightarrow> nat \<Rightarrow> 'n option Point list \<Rightarrow> 'n option Point list" where
  "pointsLoop pts i pointsArray =
     (if i < length pts
      then pointsLoop pts (i + 2)
             (pointsArray @ [\<lparr>pt_x = js_index pts i, pt_y = js_index pts (i + 1)\<rparr>])
      else pointsArray)"
  by pat_completeness auto
termination
  by (relation "measure (\<lambda>(pts, i, pointsArray). length pts - i)") auto

declare pointsLoop.simps [simp del]

definition upsertRow :: "('s, 'n) Stroke \<Rightarrow> ('s, 'n) UpsertRow" where
  "upsertRow line = \<lparr>up_id = stroke_id line, up_color = color line,
                     up_thickness = thickness line,
                     up_points = pointsLoop (points line) 0 []\<rparr>"

section \<open>The pointer handlers\<close>

text \<open>
  Each handler takes what \<^verbatim>\<open>getPointerPosition\<close> returned (\<open>None\<close> for
  \<^verbatim>\<open>null\<close>); \<^verbatim>\<open>handlePointerDown\<close> also takes the value of
  \<^verbatim>\<open>uuidv4()\<close>. A handler runs to completion on the event loop, and the state
  updates it queues are applied before the next event.
\<close>

definition handlePointerDown ::
  "'n Point option \<Rightarrow> 's \<Rightarrow> ('s, 'n) Session \<Rightarrow> ('s, 'n) Session" where
  "handlePointerDown pos uuid s =
     (case pos of
        None \<Rightarrow> s
      | Some p \<Rightarrow>
          let newLine = \<lparr>stroke_id = uuid, color = sel_color s,
                          thickness = sel_thickness s, points = [pt_x p, pt_y p]\<rparr>;
              a = length (heap s)
          in s\<lparr>heap := heap s @ [newLine], lastLineRef := Some a,
               lines := lines s @ [a], isDrawing := True\<rparr>)"

text \<open>
  Lines 166-174. The assignment to \<^verbatim>\<open>lastLineRef.current.points\<close> updates the
  object in the store; \<^verbatim>\<open>[...prev.slice(0, -1), lastLineRef.current!]\<close> drops
  the last element of \<^verbatim>\<open>prev\<close> (none when it is empty) and appends the address
  of the in-progress object.
\<close>

definition handlePointerMove ::
  "'n Point option \<Rightarrow> ('s, 'n) Session \<Rightarrow> ('s, 'n) Session" where
  "handlePointerMove pos s =
     (if \<not> isDrawing s then s
      else case lastLineRef s of
        None \<Rightarrow> s
      | Some a \<Rightarrow>
          (case pos of
             None \<Rightarrow> s
           | Some point \<Rightarrow>
               let cur = heap s ! a;
                   cur' = cur\<lparr>points := points cur @ [pt_x point, pt_y point]\<rparr>
               in s\<lparr>heap := (heap s)[a := cur'],
                    lines := butlast (lines s) @ [a]\<rparr>))"

text \<open>
  Lines 176-196, in the two segments the \<^verbatim>\<open>await\<close> cuts the handler into.
  The first runs up to the call of \<^verbatim>\<open>upsert\<close> and says whether the handler
  went on past line 179; the second is line 195, run when the call has resolved.
  The resolved value is not read.
\<close>

definition handlePointerUp_issue ::
  "('s, 'n) Session \<Rightarrow> ('s, 'n) Session \<times> ('s, 'n) request list" where
  "handlePointerUp_issue s =
     (let s1 = s\<lparr>isDrawing := False\<rparr>
      in case lastLineRef s of
           None \<Rightarrow> (s1, [])
         | Some a \<Rightarrow> (s1, [Upsert [upsertRow (heap s ! a)]]))"

definition handlePointerUp_resume :: "response \<Rightarrow> ('s, 'n) Session \<Rightarrow> ('s, 'n) Session" where
  "handlePointerUp_resume resp s = s\<lparr>lastLineRef := None\<rparr>"

text \<open>The whole handler, when no other event runs during the \<^verbatim>\<open>await\<close>.\<close>

definition handlePointerUp ::
  "response \<Rightarrow> ('s, 'n) Session \<Rightarrow> ('s, 'n) Session \<times> ('s, 'n) request list" where
  "handlePointerUp resp s =
     (case handlePointerUp_issue s of
        (s1, []) \<Rightarrow> (s1, [])
      | (s1, reqs) \<Rightarrow> (handlePointerUp_resume resp s1, reqs))"

text \<open>
  One tick of the interval of lines 84-98. The interval exists while
  \<^verbatim>\<open>isDrawing\<close> is true (the effect of lines 81-101 installs it when the flag
  turns true and clears it when the flag changes).
\<close>

definition flushTick :: "('s, 'n) Session \<Rightarrow> ('s, 'n) request list" where
  "flushTick s =
     (if \<not> isDrawing s then []
      else case lastLineRef s of
        None \<Rightarrow> []
      | Some a \<Rightarrow> [Upsert [upsertRow (heap s ! a)]])"

text \<open>Lines 199-202.\<close>

definition sentinel :: string where
  "sentinel = ''00000000-0000-0000-0000-000000000000''"

definition clearCanvas :: "('s, 'n) Session \<Rightarrow> ('s, 'n) Session \<times> ('s, 'n) request list" where
  "clearCanvas s = (s\<lparr>lines := []\<rparr>, [DeleteNeqId sentinel])"

section \<open>Sessions as event sequences\<close>

text \<open>
  Everything that can happen to a mounted component. \<open>PointerUp\<close> is the first segment
  of \<^verbatim>\<open>handlePointerUp\<close> and \<open>UpsertResolved\<close> its second one, so that other
  events may come between them; \<open>UpsertResolved\<close> is allowed at any time, which only
  adds states.
\<close>

datatype ('s, 'n, 't) event =
  Fetched "('s, 'n, 't) SupabaseStroke list option"
| FeedInsert "('s, 'n, 't) SupabaseStroke"
| PointerDown "'n Point option" 's
| PointerMove "'n Point option"
| PointerUp
| UpsertResolved response
| ClearClicked
| SetColor 's
| SetThickness 'n

fun step :: "('s, 'n, 't) event \<Rightarrow> ('s, 'n) Session \<Rightarrow> ('s, 'n) Session" where
  "step (Fetched data) s = fetchStrokes data s"
| "step (FeedInsert r) s = onInsert r s"
| "step (PointerDown pos uuid) s = handlePointerDown pos uuid s"
| "step (PointerMove pos) s = handlePointerMove pos s"
| "step PointerUp s = fst (handlePointerUp_issue s)"
| "step (UpsertResolved resp) s = handlePointerUp_resume resp s"
| "step ClearClicked s = fst (clearCanvas s)"
| "step (SetColor c) s = s\<lparr>sel_color := c\<rparr>"
| "step (SetThickness t) s = s\<lparr>sel_thickness := t\<rparr>"

definition run :: "(string, 'n::numeral, 't) event list \<Rightarrow> (string, 'n) Session" where
  "run es = foldl (\<lambda>s e. step e s) initial es"

section \<open>The store's side\<close>

text \<open>
  Modelled from the spec: the persistent store is an external service, so the two
  queries the claims speak of are taken from section 6 of the specification. The table
  is a list of rows; \<^verbatim>\<open>select("*").order("created_at", {ascending: true})\<close>
  returns it sorted by creation time, and \<^verbatim>\<open>delete().neq("id", v)\<close> deletes
  the rows whose id differs from \<open>v\<close>.
\<close>

definition store_selectAll ::
  "('s, 'n, 't::linorder) SupabaseStroke list \<Rightarrow> ('s, 'n, 't) SupabaseStroke list" where
  "store_selectAll table = sort_key created_at table"

definition store_deleteNeqId ::
  "'s \<Rightarrow> ('s, 'n, 't) SupabaseStroke list \<Rightarrow> ('s, 'n, 't) SupabaseStroke list" where
  "store_deleteNeqId v table = filter (\<lambda>r. \<not> row_id r \<noteq> v) table"

section \<open>Payloads as they arrive at run time\<close>

text \<open>
  \<^verbatim>\<open>payload.new as SupabaseStroke\<close> and the rows of \<^verbatim>\<open>data\<close> are not
  checked: a field may be missing. A missing \<^verbatim>\<open>id\<close>, \<^verbatim>\<open>color\<close> or
  \<^verbatim>\<open>thickness\<close> is the value \<^verbatim>\<open>undefined\<close>, which the code copies like
  any other (the handlers above, read at option types). A missing \<^verbatim>\<open>points\<close>
  makes \<^verbatim>\<open>s.points.flatMap\<close> throw a \<^verbatim>\<open>TypeError\<close>, the only place
  where these lines can fail.
\<close>

record ('s, 'n, 't) Payload =
  new_id :: 's
  new_color :: 's
  new_thickness :: 'n
  new_points :: "'n Point list option"
  new_created_at :: 't

datatype js_error = TypeError

definition payloadRow :: "('s, 'n, 't) Payload \<Rightarrow> js_error + ('s, 'n, 't) SupabaseStroke" where
  "payloadRow p =
     (case new_points p of
        None \<Rightarrow> Inl TypeError
      | Some ps \<Rightarrow>
          Inr \<lparr>row_id = new_id p, row_color = new_color p, row_thickness = new_thickness p,
               row_points = ps, created_at = new_created_at p\<rparr>)"

fun payloadRows :: "('s, 'n, 't) Payload list \<Rightarrow> js_error + ('s, 'n, 't) SupabaseStroke list" where
  "payloadRows [] = Inr []"
| "payloadRows (p # ps) =
     (case payloadRow p of
        Inl e \<Rightarrow> Inl e
      | Inr r \<Rightarrow> (case payloadRows ps of Inl e \<Rightarrow> Inl e | Inr rs \<Rightarrow> Inr (r # rs)))"

text \<open>
  The feed callback and \<^verbatim>\<open>fetchStrokes\<close> on unchecked payloads. An exception
  leaves the handler before \<^verbatim>\<open>setLines\<close> is called; nothing in the component
  catches it or logs a warning.
\<close>

definition onInsert_payload ::
  "('s, 'n, 't) Payload \<Rightarrow> ('s, 'n) Session \<Rightarrow> js_error + ('s, 'n) Session" where
  "onInsert_payload p s =
     (case payloadRow p of Inl e \<Rightarrow> Inl e | Inr r \<Rightarrow> Inr (onInsert r s))"

definition fetchStrokes_payload ::
  "('s, 'n, 't) Payload list option \<Rightarrow> ('s, 'n) Session \<Rightarrow> js_error + ('s, 'n) Session" where
  "fetchStrokes_payload data s =
     (case data of
        None \<Rightarrow> Inr s
      | Some ps \<Rightarrow>
          (case payloadRows ps of Inl e \<Rightarrow> Inl e | Inr rows \<Rightarrow> Inr (fetchStrokes (Some rows) s)))"

text \<open>The stroke object the handlers build from a payload whose points are \<open>pts\<close>.\<close>

definition payloadStroke :: "('s, 'n, 't) Payload \<Rightarrow> 'n Point list \<Rightarrow> ('s, 'n) Stroke" where
  "payloadStroke p pts = \<lparr>stroke_id = new_id p, color = new_color p,
                          thickness = new_thickness p, points = flatPoints pts\<rparr>"

text \<open>The session after a handler that may have thrown: an exception changes nothing.\<close>

definition after :: "js_error + ('s, 'n) Session \<Rightarrow> ('s, 'n) Session \<Rightarrow> ('s, 'n) Session" where
  "after res s = (case res of Inl e \<Rightarrow> s | Inr s' \<Rightarrow> s')"

text \<open>A payload that misses a required field, at the option types.\<close>

definition malformed :: "('s option, 'n option, 't) Payload \<Rightarrow> bool" where
  "malformed p \<longleftrightarrow>
     new_id p = None \<or> new_color p = None \<or> new_thickness p = None \<or> new_points p = None"

section \<open>Well-formed states\<close>

text \<open>
  Every reference of the session points to an object of the store. JavaScript has no
  dangling references; in the model this is an invariant of \<open>step\<close>.
\<close>

definition allocated :: "('s, 'n) Session \<Rightarrow> bool" where
  "allocated s \<longleftrightarrow>
     list_all (\<lambda>a. a < length (heap s)) (lines s) \<and>
     (case lastLineRef s of None \<Rightarrow> True | Some a \<Rightarrow> a < length (heap s))"

text \<open>The point records an upsert must carry for a flat array built from \<open>ps\<close>.\<close>

definition definedPoint :: "'n Point \<Rightarrow> 'n option Point" where
  "definedPoint p = \<lparr>pt_x = Some (pt_x p), pt_y = Some (pt_y p)\<rparr>"

text \<open>A rebuilt record read back as a point, when both its coordinates are defined.\<close>

definition thePoint :: "'n option Point \<Rightarrow> 'n Point" where
  "thePoint q = \<lparr>pt_x = the (pt_x q), pt_y = the (pt_y q)\<rparr>"

text \<open>
  What the pair-wise rebuilding must achieve for a stroke: its flat array has even
  length, no coordinate of the rebuilt records is \<^verbatim>\<open>undefined\<close> (no read past
  the end), and flattening the rebuilt records gives the array back.
\<close>

definition rebuilt :: "('s, 'n) Stroke \<Rightarrow> bool" where
  "rebuilt st \<longleftrightarrow>
     even (length (points st))
     \<and> list_all (\<lambda>q. pt_x q \<noteq> None \<and> pt_y q \<noteq> None) (up_points (upsertRow st))
     \<and> flatPoints (map thePoint (up_points (upsertRow st))) = points st"

text \<open>A request to the store none of whose point records has an undefined coordinate.\<close>

fun definedRequest :: "('s, 'n) request \<Rightarrow> bool" where
  "definedRequest (Upsert rows) =
     list_all (\<lambda>row. list_all (\<lambda>q. pt_x q \<noteq> None \<and> pt_y q \<noteq> None) (up_points row)) rows"
| "definedRequest (DeleteNeqId v) = True"

definition evenHeap :: "('s, 'n) Session \<Rightarrow> bool" where
  "evenHeap s \<longleftrightarrow> list_all (\<lambda>st. even (length (points st))) (heap s)"

text \<open>
  At most one rendered stroke per id, and the condition under which a pointer-move
  replaces the right entry: the stroke in progress is the last of the collection.
\<close>

definition distinctIds :: "('s, 'n) Session \<Rightarrow> bool" where
  "distinctIds s \<longleftrightarrow> distinct (map stroke_id (snapshot s))"

definition inProgressLast :: "('s, 'n) Session \<Rightarrow> bool" where
  "inProgressLast s \<longleftrightarrow>
     (case lastLineRef s of None \<Rightarrow> True | Some a \<Rightarrow> lines s \<noteq> [] \<and> last (lines s) = a)"

section \<open>Example sessions\<close>

definition rowA :: "(string, int, nat) SupabaseStroke" where
  "rowA = \<lparr>row_id = ''a'', row_color = ''#ff0000'', row_thickness = 4,
           row_points = [\<lparr>pt_x = 1, pt_y = 2\<rparr>], created_at = 2\<rparr>"

definition rowB :: "(string, int, nat) SupabaseStroke" where
  "rowB = \<lparr>row_id = ''b'', row_color = ''#00ff00'', row_thickness = 2,
           row_points = [\<lparr>pt_x = 5, pt_y = 6\<rparr>], created_at = 1\<rparr>"

definition strokeA :: "(string, int) Stroke" where
  "strokeA = \<lparr>stroke_id = ''a'', color = ''#ff0000'', thickness = 4, points = [1, 2, 3, 4]\<rparr>"

definition drawn :: "(string, int, nat) event list" where
  "drawn = [PointerDown (Some \<lparr>pt_x = 1, pt_y = 2\<rparr>) ''a'',
            PointerMove (Some \<lparr>pt_x = 3, pt_y = 4\<rparr>)]"

definition interleaved :: "(string, int, nat) event list" where
  "interleaved = [PointerDown (Some \<lparr>pt_x = 1, pt_y = 2\<rparr>) ''a'',
                  FeedInsert rowB,
                  PointerMove (Some \<lparr>pt_x = 3, pt_y = 4\<rparr>)]"

text \<open>
  A release whose upsert is still pending, and a new stroke begun before that upsert
  resolves.
\<close>

definition strokeN :: "(string, int) Stroke" where
  "strokeN = \<lparr>stroke_id = ''n'', color = ''#ff0000'', thickness = 4, points = [7, 8]\<rparr>"

definition released :: "(string, int, nat) event list" where
  "released = drawn @ [PointerUp]"

definition overtaken :: "(string, int, nat) event list" where
  "overtaken = drawn @ [PointerUp, PointerDown (Some \<lparr>pt_x = 7, pt_y = 8\<rparr>) ''n'',
                        UpsertResolved TransportOk]"

text \<open>
  The initial session and two payloads at the option types: one without
  \<^verbatim>\<open>color\<close>, one without \<^verbatim>\<open>points\<close>.
\<close>

definition initial_rt :: "(string option, int option) Session" where
  "initial_rt = \<lparr>heap = [], lines = [], isDrawing = False,
                 sel_color = Some ''#ff0000'', sel_thickness = Some 4, lastLineRef = None\<rparr>"

definition noColor :: "(string option, int option, nat option) Payload" where
  "noColor = \<lparr>new_id = Some ''c'', new_color = None, new_thickness = Some 2,
              new_points = Some [\<lparr>pt_x = Some 5, pt_y = Some 6\<rparr>], new_created_at = Some 1\<rparr>"

definition noPoints :: "(string option, int option, nat option) Payload" where
  "noPoints = \<lparr>new_id = Some ''d'', new_color = Some ''#0000ff'', new_thickness = Some 2,
               new_points = None, new_created_at = Some 3\<rparr>"

section \<open>Evaluating the model\<close>

lemma run_Nil: "run [] = initial"
  by (simp add: run_def)

lemma run_snoc: "run (es @ [e]) = step e (run es)"
  by (simp add: run_def)

lemmas exec_defs = run_def initial_def snapshot_def handlePointerDown_def handlePointerMove_def
  onInsert_def formatStroke_def flatPoints_def fetchStrokes_def handlePointerUp_issue_def
  handlePointerUp_resume_def clearCanvas_def Let_def

lemma run_drawn:
  "run drawn = \<lparr>heap = [strokeA], lines = [0], isDrawing = True, sel_color = ''#ff0000'',
                 sel_thickness = 4, lastLineRef = Some 0\<rparr>"
  by (simp add: drawn_def strokeA_def exec_defs)

lemma upsertRow_strokeA:
  "upsertRow strokeA =
     \<lparr>up_id = ''a'', up_color = ''#ff0000'', up_thickness = 4,
      up_points = [\<lparr>pt_x = Some 1, pt_y = Some 2\<rparr>, \<lparr>pt_x = Some 3, pt_y = Some 4\<rparr>]\<rparr>"
  by (simp add: upsertRow_def strokeA_def pointsLoop.simps js_index_def)

lemma run_released:
  "run released = \<lparr>heap = [strokeA], lines = [0], isDrawing = False, sel_color = ''#ff0000'',
                    sel_thickness = 4, lastLineRef = Some 0\<rparr>"
  by (simp add: released_def run_snoc run_drawn handlePointerUp_issue_def)

lemma run_overtaken:
  "run overtaken = \<lparr>heap = [strokeA, strokeN], lines = [0, 1], isDrawing = True,
                     sel_color = ''#ff0000'', sel_thickness = 4, lastLineRef = None\<rparr>"
  by (simp add: overtaken_def drawn_def strokeA_def strokeN_def exec_defs)

section \<open>Pointer release\<close>

lemma handlePointerUp_idle:
  "lastLineRef s = None \<Longrightarrow> handlePointerUp resp s = (s\<lparr>isDrawing := False\<rparr>, [])"
  by (simp add: handlePointerUp_def handlePointerUp_issue_def)

lemma handlePointerUp_active:
  "lastLineRef s = Some a \<Longrightarrow>
   handlePointerUp resp s =
     (s\<lparr>isDrawing := False, lastLineRef := None\<rparr>, [Upsert [upsertRow (heap s ! a)]])"
  by (simp add: handlePointerUp_def handlePointerUp_issue_def handlePointerUp_resume_def)

lemma lastLineRef_handlePointerUp: "lastLineRef (fst (handlePointerUp resp s)) = None"
  by (cases "lastLineRef s") (simp_all add: handlePointerUp_idle handlePointerUp_active)

text \<open>
  Property X2. The two segments of the pointer-up handler, whatever runs between them.
  The first issues the upsert of the stroke \<open>lastLineRef\<close> points to, or nothing when
  it is null, and changes only the drawing flag; the second clears \<open>lastLineRef\<close>. A
  release that comes after the second segment issues nothing, and neither segment
  changes what is rendered.
\<close>

theorem pointer_up_segments:
  "(lastLineRef s = None \<longrightarrow> handlePointerUp_issue s = (s\<lparr>isDrawing := False\<rparr>, []))
   \<and> (lastLineRef s = Some a \<longrightarrow>
        handlePointerUp_issue s = (s\<lparr>isDrawing := False\<rparr>, [Upsert [upsertRow (heap s ! a)]]))
   \<and> handlePointerUp_resume resp s = s\<lparr>lastLineRef := None\<rparr>
   \<and> snd (handlePointerUp_issue (handlePointerUp_resume resp s)) = []
   \<and> snapshot (fst (handlePointerUp_issue s)) = snapshot s
   \<and> snapshot (handlePointerUp_resume resp s) = snapshot s"
  by (cases "lastLineRef s")
     (simp_all add: handlePointerUp_issue_def handlePointerUp_resume_def snapshot_def)

theorem pointer_up_segments_witness:
  "lastLineRef (run drawn) = Some 0
   \<and> handlePointerUp_issue (run drawn) = (run released, [Upsert [upsertRow strokeA]])
   \<and> lastLineRef (handlePointerUp_resume TransportOk (run released)) = None
   \<and> handlePointerUp_issue (handlePointerUp_resume TransportOk (run released))
       = (\<lparr>heap = [strokeA], lines = [0], isDrawing = False, sel_color = ''#ff0000'',
           sel_thickness = 4, lastLineRef = None\<rparr>, [])"
  using pointer_up_segments [of "run drawn" 0 TransportOk]
    pointer_up_segments [of "handlePointerUp_resume TransportOk (run released)" 0 TransportOk]
  by (simp add: run_drawn run_released handlePointerUp_resume_def)

text \<open>
  Claim C7, at the traces \<open>released\<close> and \<open>overtaken\<close>. The handler clears
  \<open>lastLineRef\<close> only after the \<^verbatim>\<open>await\<close> (line 195), so after a release
  whose upsert is pending the reference still points to the finished stroke: a second
  release finds it at line 179 and issues the upsert of that stroke again. And when a
  new stroke is begun before the pending upsert resolves, line 195 clears the reference
  to the new stroke: drawing is active with no stroke in progress, the next moves
  change nothing and the release of the new stroke issues no upsert.
\<close>

theorem release_during_await_failing_trace:
  "snd (handlePointerUp_issue (run drawn)) = [Upsert [upsertRow strokeA]]
   \<and> lastLineRef (run released) = Some 0
   \<and> snd (handlePointerUp_issue (run released)) = [Upsert [upsertRow strokeA]]
   \<and> snapshot (run overtaken) = [strokeA, strokeN]
   \<and> isDrawing (run overtaken)
   \<and> lastLineRef (run overtaken) = None
   \<and> handlePointerMove (Some \<lparr>pt_x = 9, pt_y = 10\<rparr>) (run overtaken) = run overtaken
   \<and> snd (handlePointerUp_issue (run overtaken)) = []"
  by (simp add: run_drawn run_released run_overtaken handlePointerUp_issue_def
      handlePointerMove_def snapshot_def)

text \<open>
  Claim C9, as stated: a failed finish-push is retried at least once before a warning is
  shown. The handler issues its one upsert and never reads what the call resolved to:
  after the two-point stroke of \<open>drawn\<close>, a release whose upsert fails has issued
  exactly one request.
\<close>

theorem finish_push_retried_counterexample:
  "lastLineRef (run drawn) = Some 0
   \<and> snd (handlePointerUp TransportError (run drawn)) = [Upsert [upsertRow strokeA]]
   \<and> \<not> 2 \<le> length (snd (handlePointerUp TransportError (run drawn)))"
  by (simp add: run_drawn handlePointerUp_active)

text \<open>
  Claim C9, amended. Whatever the finish-push resolves to, pointer-up issues the same
  requests and ends in the same state as when it succeeds: one upsert when a stroke is
  in progress and none otherwise, with no retry and no warning. The rendered strokes
  are unchanged, so the stroke stays visible locally in either case.
\<close>

theorem finish_push_issued_once:
  "snd (handlePointerUp resp s) = snd (handlePointerUp TransportOk s)
   \<and> length (snd (handlePointerUp resp s)) = (if lastLineRef s = None then 0 else 1)
   \<and> fst (handlePointerUp resp s) = fst (handlePointerUp TransportOk s)
   \<and> snapshot (fst (handlePointerUp resp s)) = snapshot s"
  by (cases "lastLineRef s")
     (simp_all add: handlePointerUp_idle handlePointerUp_active snapshot_def)

section \<open>Merging feed inserts\<close>

lemma map_nth_heap_append:
  "list_all (\<lambda>a. a < length h) as \<Longrightarrow> map (\<lambda>a. (h @ h') ! a) as = map (\<lambda>a. h ! a) as"
  by (simp add: list_all_iff nth_append)

lemma list_ex_onInsert:
  assumes "list_all (\<lambda>a. a < length (heap s)) (lines s)"
  shows "list_ex (\<lambda>l. stroke_id ((heap s @ [x]) ! l) = stroke_id ((heap s @ [x]) ! length (heap s)))
           (lines s)
         \<longleftrightarrow> stroke_id x \<in> set (map stroke_id (snapshot s))"
proof -
  have "stroke_id ((heap s @ [x]) ! l) = stroke_id (heap s ! l)" if "l \<in> set (lines s)" for l
    using assms that by (simp add: list_all_iff nth_append)
  then have "list_ex (\<lambda>l. stroke_id ((heap s @ [x]) ! l) = stroke_id ((heap s @ [x]) ! length (heap s)))
               (lines s)
             \<longleftrightarrow> (\<exists>l \<in> set (lines s). stroke_id (heap s ! l) = stroke_id x)"
    by (simp add: list_ex_iff)
  also have "\<dots> \<longleftrightarrow> stroke_id x \<in> set (map stroke_id (snapshot s))"
    by (force simp: snapshot_def)
  finally show ?thesis .
qed

lemma snapshot_onInsert:
  assumes "allocated s"
  shows "snapshot (onInsert r s) =
           (if row_id r \<in> set (map stroke_id (snapshot s)) then snapshot s
            else snapshot s @ [formatStroke r])"
proof -
  have al: "list_all (\<lambda>a. a < length (heap s)) (lines s)"
    using assms by (simp add: allocated_def)
  have id: "stroke_id (formatStroke r) = row_id r"
    by (simp add: formatStroke_def)
  show ?thesis
    unfolding onInsert_def Let_def list_ex_onInsert [OF al] id
    by (simp add: snapshot_def map_nth_heap_append [OF al])
qed

lemma snapshot_onInsert_empty:
  "lines s = [] \<Longrightarrow> snapshot (onInsert r s) = [formatStroke r]"
  by (simp add: onInsert_def snapshot_def Let_def)

lemma allocated_onInsert: "allocated s \<Longrightarrow> allocated (onInsert r s)"
  by (auto simp: allocated_def onInsert_def Let_def list_all_iff split: option.splits)

lemma set_snapshot_onInsert:
  "allocated s \<Longrightarrow> set (snapshot (onInsert r s)) \<subseteq> insert (formatStroke r) (set (snapshot s))"
  by (auto simp: snapshot_onInsert)

lemma allocated_foldl_onInsert:
  "allocated s \<Longrightarrow> allocated (foldl (\<lambda>s r. onInsert r s) s rs)"
  by (induction rs arbitrary: s) (simp_all add: allocated_onInsert)

lemma set_snapshot_foldl_onInsert:
  "allocated s \<Longrightarrow>
   set (snapshot (foldl (\<lambda>s r. onInsert r s) s rs)) \<subseteq> set (snapshot s) \<union> formatStroke ` set rs"
proof (induction rs arbitrary: s)
  case Nil
  then show ?case by simp
next
  case (Cons r rs)
  have "set (snapshot (foldl (\<lambda>s r. onInsert r s) (onInsert r s) rs))
          \<subseteq> set (snapshot (onInsert r s)) \<union> formatStroke ` set rs"
    using Cons.IH [OF allocated_onInsert [OF Cons.prems]] .
  with set_snapshot_onInsert [OF Cons.prems, of r] show ?case
    by auto
qed

section \<open>Clearing the canvas\<close>

lemma store_deleteNeqId_all:
  "list_all (\<lambda>r. row_id r \<noteq> v) table \<Longrightarrow> store_deleteNeqId v table = []"
  by (induction table) (simp_all add: store_deleteNeqId_def)

lemma allocated_cleared: "allocated s \<Longrightarrow> allocated (fst (clearCanvas s))"
  by (simp add: allocated_def clearCanvas_def split: option.splits)

text \<open>
  Claim C6. After \<open>clearCanvas\<close> nothing is rendered, whatever the collection held. The
  request it issues is the delete of every row whose id differs from the sentinel, which
  empties a table in which no row has the sentinel id. A feed insert after the clear
  renders exactly the notified stroke, and after any sequence of feed inserts every
  rendered stroke is one of the notified ones.
\<close>

theorem clear_total:
  "snapshot (fst (clearCanvas s)) = []
   \<and> snd (clearCanvas s) = [DeleteNeqId sentinel]
   \<and> (list_all (\<lambda>r. row_id r \<noteq> sentinel) table \<longrightarrow> store_deleteNeqId sentinel table = [])
   \<and> snapshot (onInsert r (fst (clearCanvas s))) = [formatStroke r]
   \<and> (allocated s \<longrightarrow>
        set (snapshot (foldl (\<lambda>s r. onInsert r s) (fst (clearCanvas s)) rs))
          \<subseteq> formatStroke ` set rs)"
proof -
  have "snapshot (fst (clearCanvas s)) = []"
    by (simp add: clearCanvas_def snapshot_def)
  moreover have "snapshot (onInsert r (fst (clearCanvas s))) = [formatStroke r]"
    by (rule snapshot_onInsert_empty) (simp add: clearCanvas_def)
  moreover have "set (snapshot (foldl (\<lambda>s r. onInsert r s) (fst (clearCanvas s)) rs))
                   \<subseteq> formatStroke ` set rs" if "allocated s"
    using set_snapshot_foldl_onInsert [OF allocated_cleared [OF that], of rs]
    by (simp add: clearCanvas_def snapshot_def)
  ultimately show ?thesis
    by (simp add: clearCanvas_def store_deleteNeqId_all)
qed

theorem clear_total_witness:
  "list_all (\<lambda>r. row_id r \<noteq> sentinel) [rowA, rowB]
   \<and> allocated (run drawn)
   \<and> snapshot (run drawn) = [strokeA]
   \<and> snapshot (fst (clearCanvas (run drawn))) = []
   \<and> store_deleteNeqId sentinel [rowA, rowB] = []
   \<and> snapshot (onInsert rowB (fst (clearCanvas (run drawn)))) = [formatStroke rowB]
   \<and> set (snapshot (foldl (\<lambda>s r. onInsert r s) (fst (clearCanvas (run drawn))) [rowB, rowA, rowB]))
        \<subseteq> formatStroke ` set [rowB, rowA, rowB]"
proof -
  have rows: "list_all (\<lambda>r. row_id r \<noteq> sentinel) [rowA, rowB]"
    by (simp add: rowA_def rowB_def sentinel_def)
  have al: "allocated (run drawn)"
    by (simp add: run_drawn allocated_def)
  have snap: "snapshot (run drawn) = [strokeA]"
    by (simp add: run_drawn snapshot_def)
  from rows al snap clear_total [of "run drawn" "[rowA, rowB]" rowB "[rowB, rowA, rowB]"]
  show ?thesis
    by blast
qed

section \<open>Reachable states are well formed\<close>

lemma allocated_handlePointerMove: "allocated s \<Longrightarrow> allocated (handlePointerMove pos s)"
  by (auto simp: allocated_def handlePointerMove_def Let_def list_all_iff
      dest: in_set_butlastD split: option.splits)

lemma allocated_step: "allocated s \<Longrightarrow> allocated (step e s)"
proof (cases e)
  case (Fetched data)
  assume "allocated s"
  then show ?thesis
    by (cases data) (auto simp: Fetched allocated_def fetchStrokes_def list_all_iff split: option.splits)
next
  case (FeedInsert r)
  assume "allocated s"
  then show ?thesis by (simp add: FeedInsert allocated_onInsert)
next
  case (PointerDown pos uuid)
  assume "allocated s"
  then show ?thesis
    by (cases pos) (auto simp: PointerDown allocated_def handlePointerDown_def Let_def list_all_iff)
next
  case (PointerMove pos)
  assume "allocated s"
  then show ?thesis by (simp add: PointerMove allocated_handlePointerMove)
qed (auto simp: allocated_def handlePointerUp_issue_def handlePointerUp_resume_def
       clearCanvas_def Let_def split: option.splits)

lemma allocated_run: "allocated (run es)"
proof (induction es rule: rev_induct)
  case Nil
  show ?case by (simp add: run_def initial_def allocated_def)
next
  case (snoc e es)
  then show ?case by (simp add: run_snoc allocated_step)
qed

lemma set_snapshot_heap: "allocated s \<Longrightarrow> set (snapshot s) \<subseteq> set (heap s)"
  by (auto simp: allocated_def snapshot_def list_all_iff)

section \<open>Idempotent merge\<close>

text \<open>
  Claim C3. In a state whose collection already holds an entry with the id of a row, the
  feed callback for that row leaves the rendered strokes and the collection as they are.
  After the callback has run once the id is present, so running it a second time for the
  same row changes nothing.
\<close>

theorem mergeRemote_idempotent:
  "(allocated s \<and> row_id r \<in> set (map stroke_id (snapshot s)) \<longrightarrow>
      snapshot (onInsert r s) = snapshot s \<and> lines (onInsert r s) = lines s)
   \<and> (allocated s \<longrightarrow> snapshot (onInsert r (onInsert r s)) = snapshot (onInsert r s))"
proof -
  have present: "snapshot (onInsert r s) = snapshot s \<and> lines (onInsert r s) = lines s"
    if al: "allocated s" and "row_id r \<in> set (map stroke_id (snapshot s))" for s :: "('a, 'b) Session"
  proof -
    have "list_all (\<lambda>a. a < length (heap s)) (lines s)"
      using al by (simp add: allocated_def)
    from list_ex_onInsert [OF this, of "formatStroke r"] that(2)
    have "lines (onInsert r s) = lines s"
      by (simp add: onInsert_def Let_def formatStroke_def)
    then show ?thesis
      using that by (simp add: snapshot_onInsert)
  qed
  have "row_id r \<in> set (map stroke_id (snapshot (onInsert r s)))" if "allocated s"
    using that by (simp add: snapshot_onInsert formatStroke_def)
  with present [of "onInsert r s"] allocated_onInsert [of s r] present [of s]
  show ?thesis
    by blast
qed

theorem mergeRemote_idempotent_witness:
  "allocated (run drawn)
   \<and> row_id rowA \<in> set (map stroke_id (snapshot (run drawn)))
   \<and> snapshot (onInsert rowA (run drawn)) = [strokeA]
   \<and> lines (onInsert rowA (run drawn)) = [0]
   \<and> snapshot (onInsert rowA (onInsert rowA (run drawn))) = snapshot (onInsert rowA (run drawn))"
proof -
  have al: "allocated (run drawn)"
    by (rule allocated_run)
  have snap: "snapshot (run drawn) = [strokeA]" and ln: "lines (run drawn) = [0]"
    by (simp_all add: run_drawn snapshot_def)
  have pres: "row_id rowA \<in> set (map stroke_id (snapshot (run drawn)))"
    by (simp add: snap rowA_def strokeA_def)
  from al pres mergeRemote_idempotent [of "run drawn" rowA] show ?thesis
    by (simp add: snap ln)
qed

section \<open>Appending points\<close>

lemma length_flatPoints: "length (flatPoints ps) = 2 * length ps"
  by (induction ps) (simp_all add: flatPoints_def)

lemma handlePointerMove_idle:
  "\<not> isDrawing s \<or> lastLineRef s = None \<Longrightarrow> handlePointerMove pos s = s"
  by (auto simp: handlePointerMove_def)

lemma handlePointerMove_active:
  "isDrawing s \<Longrightarrow> lastLineRef s = Some a \<Longrightarrow>
   handlePointerMove (Some p) s =
     s\<lparr>heap := (heap s)[a := (heap s ! a)\<lparr>points := points (heap s ! a) @ [pt_x p, pt_y p]\<rparr>],
       lines := butlast (lines s) @ [a]\<rparr>"
  by (simp add: handlePointerMove_def Let_def)

lemma handlePointerMove_builder:
  assumes "isDrawing s" "lastLineRef s = Some a" "a < length (heap s)"
  shows "points (heap (handlePointerMove (Some p) s) ! a) = points (heap s ! a) @ [pt_x p, pt_y p]"
    and "isDrawing (handlePointerMove (Some p) s)"
    and "lastLineRef (handlePointerMove (Some p) s) = Some a"
    and "length (heap (handlePointerMove (Some p) s)) = length (heap s)"
  using assms by (simp_all add: handlePointerMove_active)

lemma appendPoints_builder:
  "isDrawing s \<Longrightarrow> lastLineRef s = Some a \<Longrightarrow> a < length (heap s) \<Longrightarrow>
   points (heap (foldl (\<lambda>s p. handlePointerMove (Some p) s) s ps) ! a)
     = points (heap s ! a) @ flatPoints ps"
proof (induction ps arbitrary: s)
  case Nil
  then show ?case by (simp add: flatPoints_def)
next
  case (Cons p ps)
  note step = handlePointerMove_builder [OF Cons.prems, of p]
  have "points (heap (foldl (\<lambda>s p. handlePointerMove (Some p) s) (handlePointerMove (Some p) s) ps) ! a)
          = points (heap (handlePointerMove (Some p) s) ! a) @ flatPoints ps"
    using Cons.IH [OF step(2) step(3)] step(4) Cons.prems(3) by simp
  then show ?case
    by (simp add: step(1) flatPoints_def)
qed

text \<open>
  Claim C4. While drawing is active and a stroke is in progress, one pointer-move with a
  position appends exactly that position's two coordinates to the in-progress stroke
  and keeps the gesture going, so a sequence of moves appends the flattened positions in
  order: the point count grows by one per move and never shrinks. When drawing is not
  active or no stroke is in progress, a pointer-move leaves the whole session as it is.
\<close>

theorem appendPoint_growth:
  "(allocated s \<and> isDrawing s \<and> lastLineRef s = Some a \<longrightarrow>
      points (heap (handlePointerMove (Some p) s) ! a) = points (heap s ! a) @ [pt_x p, pt_y p]
      \<and> length (points (heap (handlePointerMove (Some p) s) ! a)) = length (points (heap s ! a)) + 2
      \<and> isDrawing (handlePointerMove (Some p) s)
      \<and> lastLineRef (handlePointerMove (Some p) s) = Some a
      \<and> points (heap (foldl (\<lambda>s p. handlePointerMove (Some p) s) s ps) ! a)
          = points (heap s ! a) @ flatPoints ps
      \<and> length (points (heap (foldl (\<lambda>s p. handlePointerMove (Some p) s) s ps) ! a))
          = length (points (heap s ! a)) + 2 * length ps)
   \<and> (\<not> isDrawing s \<or> lastLineRef s = None \<longrightarrow> handlePointerMove pos s = s)"
proof -
  have "a < length (heap s)" if "allocated s" "lastLineRef s = Some a"
    using that by (simp add: allocated_def)
  then show ?thesis
    using handlePointerMove_idle [of s pos]
    by (auto simp: handlePointerMove_builder appendPoints_builder length_flatPoints)
qed

theorem appendPoint_growth_witness:
  "allocated (run drawn) \<and> isDrawing (run drawn) \<and> lastLineRef (run drawn) = Some 0
   \<and> points (heap (run drawn) ! 0) = [1, 2, 3, 4]
   \<and> points (heap (handlePointerMove (Some \<lparr>pt_x = 5, pt_y = 6\<rparr>) (run drawn)) ! 0)
       = [1, 2, 3, 4, 5, 6]
   \<and> length (points (heap (foldl (\<lambda>s p. handlePointerMove (Some p) s) (run drawn)
                              [\<lparr>pt_x = 5, pt_y = 6\<rparr>, \<lparr>pt_x = 7, pt_y = 8\<rparr>]) ! 0)) = 8
   \<and> \<not> isDrawing (run ([] :: (string, int, nat) event list))
   \<and> handlePointerMove (Some \<lparr>pt_x = 5, pt_y = 6\<rparr>) (run ([] :: (string, int, nat) event list))
       = run ([] :: (string, int, nat) event list)"
proof -
  have al: "allocated (run drawn)"
    by (rule allocated_run)
  have st: "isDrawing (run drawn)" "lastLineRef (run drawn) = Some 0"
    "points (heap (run drawn) ! 0) = [1, 2, 3, 4]"
    by (simp_all add: run_drawn strokeA_def)
  have idle: "\<not> isDrawing (run ([] :: (string, int, nat) event list))"
    by (simp add: run_Nil initial_def)
  from al st idle
    appendPoint_growth [of "run drawn" 0 "\<lparr>pt_x = 5, pt_y = 6\<rparr>"
      "[\<lparr>pt_x = 5, pt_y = 6\<rparr>, \<lparr>pt_x = 7, pt_y = 8\<rparr>]"]
    appendPoint_growth [of "run ([] :: (string, int, nat) event list)" _ _ _
      "Some \<lparr>pt_x = 5, pt_y = 6\<rparr>"]
  show ?thesis
    by (simp add: length_flatPoints)
qed

section \<open>Initial load\<close>

lemma map_nth_append_upt:
  "map (\<lambda>a. (h @ xs) ! a) [length h ..< length h + length xs] = xs"
  by (rule nth_equalityI) simp_all

lemma snapshot_fetchStrokes:
  "snapshot (fetchStrokes (Some rows) s) = map formatStroke rows"
  using map_nth_append_upt [of "heap s" "map formatStroke rows"]
  by (simp add: snapshot_def fetchStrokes_def)

text \<open>
  Claim C5. Loading what the store returns for the ordered query into the fresh session
  (or into any session) renders one stroke per persisted row, in the order of the query
  result: ascending creation time, the same rows as the table. Each rendered stroke has
  the id, color and thickness of its row, and its flat array is the row's point records
  interleaved as x0, y0, x1, y1 and so on.
\<close>

theorem load_roundtrip:
  "snapshot (fetchStrokes (Some (store_selectAll table)) initial)
     = map formatStroke (store_selectAll table)
   \<and> snapshot (fetchStrokes (Some (store_selectAll table)) s)
     = map formatStroke (store_selectAll table)
   \<and> sorted (map created_at (store_selectAll table))
   \<and> mset (store_selectAll table) = mset table
   \<and> stroke_id (formatStroke r) = row_id r
   \<and> color (formatStroke r) = row_color r
   \<and> thickness (formatStroke r) = row_thickness r
   \<and> points (formatStroke r) = concat (map (\<lambda>p. [pt_x p, pt_y p]) (row_points r))"
  by (simp add: snapshot_fetchStrokes store_selectAll_def formatStroke_def flatPoints_def)

theorem load_roundtrip_witness:
  "store_selectAll [rowA, rowB] = [rowB, rowA]
   \<and> snapshot (fetchStrokes (Some (store_selectAll [rowA, rowB])) initial)
       = [\<lparr>stroke_id = ''b'', color = ''#00ff00'', thickness = 2, points = [5, 6]\<rparr>,
          \<lparr>stroke_id = ''a'', color = ''#ff0000'', thickness = 4, points = [1, 2]\<rparr>]"
  using load_roundtrip [of "[rowA, rowB]" initial rowA]
  by (simp add: store_selectAll_def rowA_def rowB_def formatStroke_def flatPoints_def)

section \<open>Flat arrays and point records\<close>

lemma flatPoints_Cons: "flatPoints (p # ps) = pt_x p # pt_y p # flatPoints ps"
  by (simp add: flatPoints_def)

lemma flatPoints_nth:
  "k < length ps \<Longrightarrow>
   flatPoints ps ! (2 * k) = pt_x (ps ! k) \<and> flatPoints ps ! (2 * k + 1) = pt_y (ps ! k)"
proof (induction ps arbitrary: k)
  case Nil
  then show ?case by simp
next
  case (Cons p ps)
  show ?case
  proof (cases k)
    case 0
    then show ?thesis by (simp add: flatPoints_Cons)
  next
    case (Suc j)
    with Cons.prems have "j < length ps" by simp
    from Cons.IH [OF this] Suc show ?thesis
      by (simp add: flatPoints_Cons)
  qed
qed

lemma pointsLoop_flatPoints_from:
  "k \<le> length ps \<Longrightarrow>
   pointsLoop (flatPoints ps) (2 * k) acc = acc @ map definedPoint (drop k ps)"
proof (induction "length ps - k" arbitrary: k acc)
  case 0
  then show ?case
    by (simp add: pointsLoop.simps [of _ "2 * k"] length_flatPoints)
next
  case (Suc d)
  then have k: "k < length ps" by simp
  have ih: "pointsLoop (flatPoints ps) (2 * Suc k) acc' = acc' @ map definedPoint (drop (Suc k) ps)"
    for acc'
    using Suc.hyps(1) [of "Suc k" acc'] Suc.hyps(2) k by simp
  have rd: "js_index (flatPoints ps) (2 * k) = Some (pt_x (ps ! k))"
           "js_index (flatPoints ps) (2 * k + 1) = Some (pt_y (ps ! k))"
           "js_index (flatPoints ps) (Suc (2 * k)) = Some (pt_y (ps ! k))"
    using k flatPoints_nth [OF k] by (simp_all add: js_index_def length_flatPoints)
  have "pointsLoop (flatPoints ps) (2 * k) acc
          = pointsLoop (flatPoints ps) (2 * k + 2)
              (acc @ [\<lparr>pt_x = js_index (flatPoints ps) (2 * k),
                        pt_y = js_index (flatPoints ps) (2 * k + 1)\<rparr>])"
    using k by (subst pointsLoop.simps) (simp add: length_flatPoints)
  also have "\<dots> = (acc @ [definedPoint (ps ! k)]) @ map definedPoint (drop (Suc k) ps)"
    using ih [of "acc @ [definedPoint (ps ! k)]"] by (simp add: rd definedPoint_def)
  also have "\<dots> = acc @ map definedPoint (drop k ps)"
    using k by (simp add: Cons_nth_drop_Suc [symmetric])
  finally show ?case .
qed

lemma pointsLoop_flatPoints: "pointsLoop (flatPoints ps) 0 [] = map definedPoint ps"
  using pointsLoop_flatPoints_from [of 0 ps "[]"] by simp

lemma thePoint_definedPoint: "thePoint (definedPoint p) = p"
  by (simp add: thePoint_def definedPoint_def)

lemma rebuilt_flat:
  assumes "points st = flatPoints ps"
  shows "rebuilt st"
proof -
  have up: "up_points (upsertRow st) = map definedPoint ps"
    by (simp add: upsertRow_def assms pointsLoop_flatPoints)
  have "list_all (\<lambda>q. pt_x q \<noteq> None \<and> pt_y q \<noteq> None) (map definedPoint ps)"
    by (simp add: list_all_iff definedPoint_def)
  moreover have "map thePoint (map definedPoint ps) = ps"
    by (simp add: comp_def thePoint_definedPoint)
  ultimately show ?thesis
    unfolding rebuilt_def up by (simp add: assms length_flatPoints)
qed

text \<open>Every array of even length is the flattening of some point records.\<close>

lemma even_length_flat: "even (length pts) \<Longrightarrow> \<exists>ps. pts = flatPoints ps"
proof (induction pts rule: induct_list012)
  case 1
  have "[] = flatPoints []" by (simp add: flatPoints_def)
  then show ?case by blast
next
  case (2 x)
  then show ?case by simp
next
  case (3 x y zs)
  then obtain ps where "zs = flatPoints ps" by auto
  then have "x # y # zs = flatPoints (\<lparr>pt_x = x, pt_y = y\<rparr> # ps)"
    by (simp add: flatPoints_Cons)
  then show ?case by blast
qed

lemma rebuilt_iff: "rebuilt st \<longleftrightarrow> even (length (points st))"
proof
  assume "rebuilt st" then show "even (length (points st))" by (simp add: rebuilt_def)
next
  assume "even (length (points st))"
  then obtain ps where "points st = flatPoints ps" using even_length_flat by blast
  then show "rebuilt st" by (rule rebuilt_flat)
qed

lemma even_formatStroke: "even (length (points (formatStroke r)))"
  by (simp add: formatStroke_def length_flatPoints)

lemma list_all_update:
  assumes "list_all P xs" and "i < length xs \<Longrightarrow> P y"
  shows "list_all P (xs[i := y])"
proof (cases "i < length xs")
  case True
  with assms set_update_subset_insert [of xs i y] show ?thesis
    by (auto simp: list_all_iff)
next
  case False
  then have "length xs \<le> i" by simp
  with assms(1) show ?thesis by (simp add: list_update_beyond)
qed

lemma evenHeap_handlePointerMove:
  fixes s :: "('a, 'b) Session"
  assumes ev: "evenHeap s"
  shows "evenHeap (handlePointerMove pos s)"
proof -
  have upd: "list_all (\<lambda>st. even (length (points st)))
          ((heap s)[a := (heap s ! a)\<lparr>points := points (heap s ! a) @ [pt_x p, pt_y p]\<rparr>])"
    for a and p :: "'b Point"
  proof (rule list_all_update)
    show "list_all (\<lambda>st. even (length (points st))) (heap s)"
      using ev by (simp add: evenHeap_def)
    show "even (length (points ((heap s ! a)\<lparr>points := points (heap s ! a) @ [pt_x p, pt_y p]\<rparr>)))"
      if "a < length (heap s)"
      using ev that by (simp add: evenHeap_def list_all_iff)
  qed
  from ev show ?thesis
    by (simp add: handlePointerMove_def Let_def evenHeap_def upd split: option.splits)
qed

lemma evenHeap_step: "evenHeap s \<Longrightarrow> evenHeap (step e s)"
proof (cases e)
  case (Fetched data)
  assume "evenHeap s"
  then show ?thesis
    by (cases data) (auto simp: Fetched evenHeap_def fetchStrokes_def list_all_iff even_formatStroke)
next
  case (FeedInsert r)
  assume "evenHeap s"
  then show ?thesis
    by (simp add: FeedInsert evenHeap_def onInsert_def Let_def even_formatStroke)
next
  case (PointerDown pos uuid)
  assume "evenHeap s"
  then show ?thesis
    by (cases pos) (simp_all add: PointerDown evenHeap_def handlePointerDown_def Let_def)
next
  case (PointerMove pos)
  assume "evenHeap s"
  then show ?thesis
    by (simp add: PointerMove evenHeap_handlePointerMove)
qed (simp_all add: evenHeap_def handlePointerUp_issue_def handlePointerUp_resume_def
       clearCanvas_def Let_def split: option.splits)
lemma evenHeap_run: "evenHeap (run es)"
proof (induction es rule: rev_induct)
  case Nil
  show ?case by (simp add: run_def initial_def evenHeap_def)
next
  case (snoc e es)
  then show ?case by (simp add: run_snoc evenHeap_step)
qed

lemma definedRequest_upsertRow:
  "rebuilt st \<Longrightarrow> definedRequest (Upsert [upsertRow st])"
  by (simp add: rebuilt_def)

text \<open>
  Claim C10. In every state a session can reach, each stroke object ever created (so
  each rendered stroke, and the stroke in progress) has a flat array of even length, the
  point records rebuilt from it two coordinates at a time contain no read past the end
  of the array, and flattening them gives the array back; so no upsert issued by a
  flush tick or by pointer-up carries an undefined coordinate. In the other direction,
  the loop run on the flattening of any point records returns exactly those records.
\<close>

theorem points_even_rebuilt:
  "list_all rebuilt (heap (run es))
   \<and> list_all rebuilt (snapshot (run es))
   \<and> (\<forall>a. lastLineRef (run es) = Some a \<longrightarrow> rebuilt (heap (run es) ! a))
   \<and> list_all definedRequest (flushTick (run es))
   \<and> list_all definedRequest (snd (handlePointerUp resp (run es)))
   \<and> pointsLoop (flatPoints ps) 0 [] = map definedPoint ps"
proof -
  have h: "list_all rebuilt (heap (run es))"
    using evenHeap_run [of es] by (simp add: evenHeap_def rebuilt_iff [abs_def])
  have snap: "list_all rebuilt (snapshot (run es))"
    using h set_snapshot_heap [OF allocated_run, of es] by (auto simp: list_all_iff)
  have cur: "rebuilt (heap (run es) ! a)" if "lastLineRef (run es) = Some a" for a
    using h allocated_run [of es] that by (simp add: allocated_def list_all_iff)
  have req: "definedRequest (Upsert [upsertRow (heap (run es) ! a)])"
    if "lastLineRef (run es) = Some a" for a
    using cur [OF that] by (rule definedRequest_upsertRow)
  have "list_all definedRequest (flushTick (run es))"
    by (cases "lastLineRef (run es)")
       (simp_all add: flushTick_def req del: definedRequest.simps)
  moreover have "list_all definedRequest (snd (handlePointerUp resp (run es)))"
    by (cases "lastLineRef (run es)")
       (simp_all add: handlePointerUp_idle handlePointerUp_active req del: definedRequest.simps)
  ultimately show ?thesis
    using h snap cur by (simp add: pointsLoop_flatPoints)
qed

theorem points_even_rebuilt_witness:
  "heap (run drawn) = [strokeA] \<and> lastLineRef (run drawn) = Some 0
   \<and> rebuilt strokeA
   \<and> even (length (points strokeA))
   \<and> flushTick (run drawn) = [Upsert [upsertRow strokeA]]
   \<and> up_points (upsertRow strokeA)
       = [\<lparr>pt_x = Some 1, pt_y = Some 2\<rparr>, \<lparr>pt_x = Some 3, pt_y = Some 4\<rparr>]
   \<and> definedRequest (Upsert [upsertRow strokeA])
   \<and> pointsLoop (flatPoints [\<lparr>pt_x = 1 :: int, pt_y = 2\<rparr>]) 0 []
       = [\<lparr>pt_x = Some 1, pt_y = Some 2\<rparr>]"
  using points_even_rebuilt [of drawn TransportOk "[\<lparr>pt_x = 1 :: int, pt_y = 2\<rparr>]"]
  by (simp add: run_drawn upsertRow_strokeA definedPoint_def flushTick_def) (simp add: strokeA_def)

section \<open>Payloads that miss a field\<close>

text \<open>
  Claim C8, as stated: a feed event that misses a required field is dropped and leaves
  the collection unchanged. A payload without \<^verbatim>\<open>color\<close> is not dropped: the
  callback appends a stroke whose color is \<^verbatim>\<open>undefined\<close>.
\<close>

theorem malformed_payload_dropped_counterexample:
  "malformed noColor
   \<and> onInsert_payload noColor initial_rt \<noteq> Inl TypeError
   \<and> snapshot (after (onInsert_payload noColor initial_rt) initial_rt)
       = [\<lparr>stroke_id = Some ''c'', color = None, thickness = Some 2, points = [Some 5, Some 6]\<rparr>]
   \<and> lines (after (onInsert_payload noColor initial_rt) initial_rt) \<noteq> lines initial_rt"
  by (simp add: malformed_def noColor_def initial_rt_def onInsert_payload_def payloadRow_def
      after_def onInsert_def formatStroke_def flatPoints_def snapshot_def Let_def)

lemma payloadRows_missing:
  "list_ex (\<lambda>p. new_points p = None) ps \<Longrightarrow> payloadRows ps = Inl TypeError"
proof (induction ps)
  case Nil
  then show ?case by simp
next
  case (Cons p ps)
  then show ?case
    by (cases "new_points p") (auto simp: payloadRow_def split: sum.splits js_error.splits)
qed

lemma formatStroke_payloadRow:
  "new_points p = Some pts \<Longrightarrow>
   \<exists>r. payloadRow p = Inr r \<and> formatStroke r = payloadStroke p pts \<and> row_id r = new_id p"
  by (simp add: payloadRow_def formatStroke_def payloadStroke_def)

lemma payloadRows_present:
  "list_all (\<lambda>p. new_points p \<noteq> None) ps \<Longrightarrow>
   \<exists>rows. payloadRows ps = Inr rows
     \<and> map formatStroke rows = map (\<lambda>p. payloadStroke p (the (new_points p))) ps"
proof (induction ps)
  case Nil
  then show ?case by simp
next
  case (Cons p ps)
  then obtain rows where rows: "payloadRows ps = Inr rows"
    "map formatStroke rows = map (\<lambda>p. payloadStroke p (the (new_points p))) ps"
    by auto
  from Cons.prems obtain pts where pts: "new_points p = Some pts" by auto
  from formatStroke_payloadRow [OF pts] obtain r where
    r: "payloadRow p = Inr r" "formatStroke r = payloadStroke p pts" by blast
  show ?case
    by (simp add: rows r pts)
qed

text \<open>
  Claim C8, amended. A feed event without \<^verbatim>\<open>points\<close>, and a load in which
  some row has no \<^verbatim>\<open>points\<close>, end in a \<^verbatim>\<open>TypeError\<close> before
  \<^verbatim>\<open>setLines\<close> is called, so the session is unchanged (the load then loses all
  its rows). A payload that has \<^verbatim>\<open>points\<close> is handled like any other, whichever
  of its other fields are missing: the feed callback appends its stroke unless the id
  is present, and the load renders one stroke per row.
\<close>

theorem payload_missing_fields:
  "(new_points p = None \<longrightarrow>
      onInsert_payload p s = Inl TypeError \<and> after (onInsert_payload p s) s = s)
   \<and> (list_ex (\<lambda>p. new_points p = None) ps \<longrightarrow>
      fetchStrokes_payload (Some ps) s = Inl TypeError
      \<and> after (fetchStrokes_payload (Some ps) s) s = s)
   \<and> (allocated s \<and> new_points p = Some pts \<longrightarrow>
      snapshot (after (onInsert_payload p s) s) =
        (if new_id p \<in> set (map stroke_id (snapshot s)) then snapshot s
         else snapshot s @ [payloadStroke p pts]))
   \<and> (list_all (\<lambda>p. new_points p \<noteq> None) ps \<longrightarrow>
      snapshot (after (fetchStrokes_payload (Some ps) s) s) =
        map (\<lambda>p. payloadStroke p (the (new_points p))) ps)"
proof -
  have feed_err: "onInsert_payload p s = Inl TypeError \<and> after (onInsert_payload p s) s = s"
    if "new_points p = None"
    using that by (simp add: onInsert_payload_def payloadRow_def after_def)
  have load_err: "fetchStrokes_payload (Some ps) s = Inl TypeError
                  \<and> after (fetchStrokes_payload (Some ps) s) s = s"
    if "list_ex (\<lambda>p. new_points p = None) ps"
    using payloadRows_missing [OF that] by (simp add: fetchStrokes_payload_def after_def)
  have feed_ok: "snapshot (after (onInsert_payload p s) s) =
        (if new_id p \<in> set (map stroke_id (snapshot s)) then snapshot s
         else snapshot s @ [payloadStroke p pts])"
    if "allocated s" "new_points p = Some pts"
  proof -
    from formatStroke_payloadRow [OF that(2)] obtain r where
      r: "payloadRow p = Inr r" "formatStroke r = payloadStroke p pts" "row_id r = new_id p"
      by blast
    with snapshot_onInsert [OF that(1), of r] show ?thesis
      by (simp add: onInsert_payload_def after_def)
  qed
  have load_ok: "snapshot (after (fetchStrokes_payload (Some ps) s) s) =
        map (\<lambda>p. payloadStroke p (the (new_points p))) ps"
    if "list_all (\<lambda>p. new_points p \<noteq> None) ps"
  proof -
    from payloadRows_present [OF that] obtain rows where
      "payloadRows ps = Inr rows"
      "map formatStroke rows = map (\<lambda>p. payloadStroke p (the (new_points p))) ps"
      by blast
    then show ?thesis
      by (simp add: fetchStrokes_payload_def after_def snapshot_fetchStrokes)
  qed
  from feed_err load_err feed_ok load_ok show ?thesis
    by blast
qed

theorem payload_missing_fields_witness:
  "new_points noPoints = None
   \<and> after (onInsert_payload noPoints initial_rt) initial_rt = initial_rt
   \<and> list_ex (\<lambda>p. new_points p = None) [noColor, noPoints]
   \<and> after (fetchStrokes_payload (Some [noColor, noPoints]) initial_rt) initial_rt = initial_rt
   \<and> allocated initial_rt \<and> new_points noColor = Some [\<lparr>pt_x = Some 5, pt_y = Some 6\<rparr>]
   \<and> snapshot (after (onInsert_payload noColor initial_rt) initial_rt)
       = [\<lparr>stroke_id = Some ''c'', color = None, thickness = Some 2, points = [Some 5, Some 6]\<rparr>]
   \<and> list_all (\<lambda>p. new_points p \<noteq> None) [noColor]
   \<and> snapshot (after (fetchStrokes_payload (Some [noColor]) initial_rt) initial_rt)
       = [\<lparr>stroke_id = Some ''c'', color = None, thickness = Some 2, points = [Some 5, Some 6]\<rparr>]"
proof -
  have h: "new_points noPoints = None" "list_ex (\<lambda>p. new_points p = None) [noColor, noPoints]"
    "allocated initial_rt" "new_points noColor = Some [\<lparr>pt_x = Some 5, pt_y = Some 6\<rparr>]"
    "list_all (\<lambda>p. new_points p \<noteq> None) [noColor]"
    "snapshot initial_rt = []"
    by (simp_all add: noPoints_def noColor_def initial_rt_def allocated_def snapshot_def)
  have ps: "payloadStroke noColor [\<lparr>pt_x = Some 5, pt_y = Some 6\<rparr>]
              = \<lparr>stroke_id = Some ''c'', color = None, thickness = Some 2, points = [Some 5, Some 6]\<rparr>"
    by (simp add: payloadStroke_def noColor_def flatPoints_def)
  from h payload_missing_fields [of noPoints initial_rt "[noColor, noPoints]"]
    payload_missing_fields [of noColor initial_rt "[noColor]" "[\<lparr>pt_x = Some 5, pt_y = Some 6\<rparr>]"]
  show ?thesis
    by (simp add: ps after_def)
qed

section \<open>One entry per id\<close>

lemma snapshot_handlePointerDown:
  "allocated s \<Longrightarrow>
   snapshot (handlePointerDown (Some p) uuid s) =
     snapshot s @ [\<lparr>stroke_id = uuid, color = sel_color s, thickness = sel_thickness s,
                    points = [pt_x p, pt_y p]\<rparr>]"
  by (simp add: handlePointerDown_def Let_def snapshot_def allocated_def map_nth_heap_append)

lemma map_stroke_id_update:
  "stroke_id y = stroke_id (h ! a) \<Longrightarrow> map (\<lambda>l. stroke_id (h[a := y] ! l)) ls = map (\<lambda>l. stroke_id (h ! l)) ls"
  by (rule map_cong [OF refl]) (metis list_update_beyond nth_list_update_eq nth_list_update_neq not_le)

lemma ids_handlePointerMove:
  assumes "inProgressLast s"
  shows "map stroke_id (snapshot (handlePointerMove pos s)) = map stroke_id (snapshot s)"
proof (cases "isDrawing s \<and> lastLineRef s \<noteq> None \<and> pos \<noteq> None")
  case False
  then show ?thesis
    by (auto simp: handlePointerMove_def split: option.splits)
next
  case True
  then obtain a p where ap: "lastLineRef s = Some a" "pos = Some p" by auto
  with assms have "lines s \<noteq> []" "last (lines s) = a"
    by (simp_all add: inProgressLast_def)
  then have "butlast (lines s) @ [a] = lines s"
    using append_butlast_last_id [of "lines s"] by simp
  with True ap show ?thesis
    by (simp add: handlePointerMove_def Let_def snapshot_def comp_def map_stroke_id_update)
qed

text \<open>
  Property X1. Where the invariant of claim C1 does hold: the feed callback, a load of rows
  with distinct ids, the clear, a pointer-down with an id not yet rendered and a
  pointer-up all keep the rendered ids distinct, and so does a pointer-move as long as
  the stroke in progress is the last entry of the collection.
\<close>

theorem one_entry_per_id_preserved:
  "(allocated s \<and> distinctIds s \<longrightarrow> distinctIds (onInsert r s))
   \<and> (distinct (map row_id rows) \<longrightarrow> distinctIds (fetchStrokes (Some rows) s))
   \<and> distinctIds (fst (clearCanvas s))
   \<and> (allocated s \<and> distinctIds s \<and> uuid \<notin> set (map stroke_id (snapshot s)) \<longrightarrow>
        distinctIds (handlePointerDown pos' uuid s))
   \<and> (distinctIds s \<and> inProgressLast s \<longrightarrow> distinctIds (handlePointerMove pos s))
   \<and> (distinctIds s \<longrightarrow> distinctIds (fst (handlePointerUp resp s)))"
proof -
  have "distinctIds (onInsert r s)" if "allocated s" "distinctIds s"
    using that by (simp add: distinctIds_def snapshot_onInsert formatStroke_def)
  moreover have "distinctIds (fetchStrokes (Some rows) s)" if "distinct (map row_id rows)"
  proof -
    have "map stroke_id (map formatStroke rows) = map row_id rows"
      by (simp add: formatStroke_def comp_def)
    with that show ?thesis
      by (simp add: distinctIds_def snapshot_fetchStrokes del: map_map)
  qed
  moreover have "distinctIds (fst (clearCanvas s))"
    by (simp add: distinctIds_def clearCanvas_def snapshot_def)
  moreover have "distinctIds (handlePointerDown pos' uuid s)"
    if "allocated s" "distinctIds s" "uuid \<notin> set (map stroke_id (snapshot s))"
  proof (cases pos')
    case None
    with that show ?thesis by (simp add: handlePointerDown_def)
  next
    case (Some p)
    with that show ?thesis
      by (simp add: distinctIds_def snapshot_handlePointerDown)
  qed
  moreover have "distinctIds (handlePointerMove pos s)" if "distinctIds s" "inProgressLast s"
    using that by (simp add: distinctIds_def ids_handlePointerMove)
  moreover have "distinctIds (fst (handlePointerUp resp s))" if "distinctIds s"
    using that
    by (cases "lastLineRef s")
       (simp_all add: distinctIds_def handlePointerUp_idle handlePointerUp_active snapshot_def)
  ultimately show ?thesis
    by blast
qed

theorem one_entry_per_id_preserved_witness:
  "allocated (run drawn) \<and> distinctIds (run drawn) \<and> inProgressLast (run drawn)
   \<and> distinct (map row_id [rowA, rowB])
   \<and> ''z'' \<notin> set (map stroke_id (snapshot (run drawn)))
   \<and> distinctIds (onInsert rowB (run drawn))
   \<and> distinctIds (fetchStrokes (Some [rowA, rowB]) (run drawn))
   \<and> distinctIds (handlePointerDown (Some \<lparr>pt_x = 5, pt_y = 6\<rparr>) ''z'' (run drawn))
   \<and> distinctIds (handlePointerMove (Some \<lparr>pt_x = 5, pt_y = 6\<rparr>) (run drawn))
   \<and> distinctIds (fst (handlePointerUp TransportOk (run drawn)))"
proof -
  have h: "allocated (run drawn)" "distinctIds (run drawn)" "inProgressLast (run drawn)"
    "distinct (map row_id [rowA, rowB])"
    "''z'' \<notin> set (map stroke_id (snapshot (run drawn)))"
    by (simp_all add: run_drawn allocated_def distinctIds_def inProgressLast_def snapshot_def
        rowA_def rowB_def strokeA_def)
  from h one_entry_per_id_preserved
    [of "run drawn" rowB "[rowA, rowB]" "''z''" "Some \<lparr>pt_x = 5, pt_y = 6\<rparr>"
      "Some \<lparr>pt_x = 5, pt_y = 6\<rparr>" TransportOk]
  show ?thesis
    by blast
qed

lemma run_interleaved:
  "run interleaved =
     \<lparr>heap = [strokeA, formatStroke rowB], lines = [0, 0], isDrawing = True,
      sel_color = ''#ff0000'', sel_thickness = 4, lastLineRef = Some 0\<rparr>"
  by (simp add: interleaved_def strokeA_def rowB_def exec_defs)

text \<open>
  Claim C1, at the trace \<open>interleaved\<close>: pointer-down starts stroke \<open>a\<close>, the feed
  delivers another client's stroke \<open>b\<close>, which is appended after it, and the next
  pointer-move replaces the last entry, which is \<open>b\<close>, by the in-progress object. The
  collection then holds the object of \<open>a\<close> twice and \<open>b\<close> is no longer rendered.
\<close>

theorem one_entry_per_id_failing_trace:
  "snapshot (run [PointerDown (Some \<lparr>pt_x = 1, pt_y = 2\<rparr>) ''a'', FeedInsert rowB])
     = [\<lparr>stroke_id = ''a'', color = ''#ff0000'', thickness = 4, points = [1, 2]\<rparr>, formatStroke rowB]
   \<and> snapshot (run interleaved) = [strokeA, strokeA]
   \<and> map stroke_id (snapshot (run interleaved)) = [''a'', ''a'']
   \<and> \<not> distinct (map stroke_id (snapshot (run interleaved)))"
  by (simp add: run_interleaved snapshot_def) (simp add: strokeA_def rowB_def exec_defs)

text \<open>
  Claim C2, at the same trace followed by the feed's echo of stroke \<open>a\<close>: the callback
  finds the id and keeps the collection, which holds two entries for \<open>a\<close>.
\<close>

theorem echo_after_interleaving_failing_trace:
  "snapshot (run (interleaved @ [FeedInsert rowA])) = [strokeA, strokeA]
   \<and> length (filter (\<lambda>st. stroke_id st = row_id rowA) (snapshot (run (interleaved @ [FeedInsert rowA])))) = 2"
  by (simp add: run_snoc run_interleaved) (simp add: strokeA_def rowA_def rowB_def exec_defs)

end
